theory Spec2Isabelle
  imports Main "HOL-Library.AList"
begin

section \<open>Values, objects and the heap\<close>

text \<open>
  The program is one function, \<^verbatim>\<open>DotDotty(target, options)\<close> of \<^verbatim>\<open>src/index.mjs\<close>,
  that wraps \<^verbatim>\<open>target\<close> in a \<^verbatim>\<open>Proxy\<close> with a \<^verbatim>\<open>get\<close> and a \<^verbatim>\<open>set\<close> trap. The traps walk
  the target along the segments of a dotted path; \<^verbatim>\<open>set\<close> mutates the target in place
  and may create containers. Objects are therefore kept in an explicit heap, and a
  value refers to an object by its address.

  Scope of the embedding. Values are \<^verbatim>\<open>undefined\<close>, \<^verbatim>\<open>null\<close>, booleans, numbers (kept at
  integer values: the traps never compute with a stored number), strings and
  references to plain objects and arrays. An object carries its own data properties
  only, as an association list (the traps never enumerate them): inherited
  properties, accessors, frozen objects, symbols and functions are not modelled, so
  the statements are about paths none of whose segments names an inherited property
  (\<^verbatim>\<open>constructor\<close>, \<^verbatim>\<open>__proto__\<close>, \<^verbatim>\<open>toString\<close>). Strings are lists of code units
  below 256. The file is an ES module, so its code is strict: a failed assignment
  raises \<^verbatim>\<open>TypeError\<close>.
\<close>

type_synonym addr = nat

datatype val = Undefined | Null | Bool bool | Num int | Str string | Ref addr

type_synonym props = "(string \<times> val) list"

text \<open>An array is its properties and its \<^verbatim>\<open>length\<close>; it may have holes.\<close>

datatype obj = Object props | Array props nat

type_synonym heap = "obj list"

text \<open>
  \<open>InvalidPath\<close> is the \<^verbatim>\<open>new Error(message)\<close> the traps throw themselves;
  \<open>TypeError\<close> is raised by the language when a property of \<^verbatim>\<open>undefined\<close> or \<^verbatim>\<open>null\<close>
  is read or when a property of a primitive is assigned. \<open>Unmodelled\<close> marks the two
  places where the embedding stops: a reference to an address outside the heap (no
  such state exists at run time) and an assignment to the \<^verbatim>\<open>length\<close> of an array
  (which may truncate the array or raise \<^verbatim>\<open>RangeError\<close>, after converting the value).
\<close>

datatype error = InvalidPath string | TypeError | Unmodelled

record options =
  isImmutable :: bool
  isExpandable :: bool
  throwErrors :: bool

text \<open>\<^verbatim>\<open>{isImmutable=false, isExpandable=true, throwErrors=true} = {}\<close>\<close>

definition default_options :: options where
  "default_options = \<lparr>isImmutable = False, isExpandable = True, throwErrors = True\<rparr>"

subsection \<open>Strings: \<^verbatim>\<open>split\<close>, \<^verbatim>\<open>join\<close>, \<^verbatim>\<open>isNaN\<close>\<close>

text \<open>\<^verbatim>\<open>prop.split('.')\<close>: never empty; the empty string splits into one empty segment.\<close>

fun split_dot :: "string \<Rightarrow> string list" where
  "split_dot [] = [[]]"
| "split_dot (c # cs) =
     (if c = CHR ''.'' then [] # split_dot cs
      else (case split_dot cs of
              [] \<Rightarrow> [[c]]
            | p # ps \<Rightarrow> (c # p) # ps))"

text \<open>\<^verbatim>\<open>xs.join('.')\<close>\<close>

fun join_dot :: "string list \<Rightarrow> string" where
  "join_dot [] = []"
| "join_dot [x] = x"
| "join_dot (x # y # ys) = x @ CHR ''.'' # join_dot (y # ys)"

text \<open>
  \<^verbatim>\<open>isNaN(s)\<close> on a string converts it with \<^verbatim>\<open>StringToNumber\<close> and is false exactly
  when \<open>s\<close> is an expansion of the grammar \<^verbatim>\<open>StringNumericLiteral\<close> of ECMA-262:
  optional white space around nothing at all, or around a binary, octal or
  hexadecimal integer (\<^verbatim>\<open>0b\<close>, \<^verbatim>\<open>0o\<close>, \<^verbatim>\<open>0x\<close>, unsigned), or around an optionally signed
  decimal literal (\<^verbatim>\<open>Infinity\<close>, or digits with an optional fraction and exponent).
  A literal too large for a double converts to an infinity, never to \<^verbatim>\<open>NaN\<close>, so the
  test is one of syntax.
\<close>

definition isWhiteSpace :: "char \<Rightarrow> bool" where
  "isWhiteSpace c \<longleftrightarrow>
     c \<in> set [CHR 0x09, CHR 0x0A, CHR 0x0B, CHR 0x0C, CHR 0x0D, CHR 0x20, CHR 0xA0]"

definition trim :: "string \<Rightarrow> string" where
  "trim s = rev (dropWhile isWhiteSpace (rev (dropWhile isWhiteSpace s)))"

definition isDigit :: "char \<Rightarrow> bool" where
  "isDigit c \<longleftrightarrow> c \<in> set ''0123456789''"

definition digits :: "(char \<Rightarrow> bool) \<Rightarrow> string \<Rightarrow> bool" where
  "digits d s \<longleftrightarrow> s \<noteq> [] \<and> list_all d s"

text \<open>\<^verbatim>\<open>ExponentPart\<close>, optional: \<^verbatim>\<open>e\<close> or \<^verbatim>\<open>E\<close>, an optional sign, digits.\<close>

fun exponent_opt :: "string \<Rightarrow> bool" where
  "exponent_opt [] = True"
| "exponent_opt (c # r) =
     ((c = CHR ''e'' \<or> c = CHR ''E'') \<and>
      (case r of
         [] \<Rightarrow> False
       | s # r' \<Rightarrow> if s = CHR ''+'' \<or> s = CHR ''-'' then digits isDigit r' else digits isDigit r))"

text \<open>\<^verbatim>\<open>StrUnsignedDecimalLiteral\<close>\<close>

definition unsigned_decimal :: "string \<Rightarrow> bool" where
  "unsigned_decimal s \<longleftrightarrow>
     s = ''Infinity'' \<or>
     (let ip = takeWhile isDigit s; r1 = dropWhile isDigit s
      in case r1 of
           [] \<Rightarrow> ip \<noteq> []
         | c # r \<Rightarrow>
             if c = CHR ''.''
             then (ip \<noteq> [] \<or> takeWhile isDigit r \<noteq> []) \<and> exponent_opt (dropWhile isDigit r)
             else ip \<noteq> [] \<and> exponent_opt r1)"

text \<open>\<^verbatim>\<open>StrDecimalLiteral\<close>\<close>

fun signed_decimal :: "string \<Rightarrow> bool" where
  "signed_decimal [] = False"
| "signed_decimal (c # r) =
     (if c = CHR ''+'' \<or> c = CHR ''-'' then unsigned_decimal r else unsigned_decimal (c # r))"

text \<open>\<^verbatim>\<open>NonDecimalIntegerLiteral\<close>\<close>

fun non_decimal :: "string \<Rightarrow> bool" where
  "non_decimal (z # x # r) =
     (z = CHR ''0'' \<and>
      ((x = CHR ''b'' \<or> x = CHR ''B'') \<and> digits (\<lambda>c. c \<in> set ''01'') r \<or>
       (x = CHR ''o'' \<or> x = CHR ''O'') \<and> digits (\<lambda>c. c \<in> set ''01234567'') r \<or>
       (x = CHR ''x'' \<or> x = CHR ''X'') \<and> digits (\<lambda>c. c \<in> set ''0123456789abcdefABCDEF'') r))"
| "non_decimal _ = False"

definition isNaN :: "string \<Rightarrow> bool" where
  "isNaN s \<longleftrightarrow> (let t = trim s in \<not> (t = [] \<or> non_decimal t \<or> signed_decimal t))"

text \<open>
  \<^verbatim>\<open>if (!isNaN(part)) { part = Number(part) }\<close>: from here on \<^verbatim>\<open>part\<close> is a number, and
  both \<^verbatim>\<open>obj[part]\<close> and the \<^verbatim>\<open>${part}\<close> of the error message convert it back to a string.
  The conversion of a numeric string to a double and back is taken as a parameter
  \<open>K\<close> (\<open>K s\<close> is \<^verbatim>\<open>String(Number(s))\<close>): it rounds to a double and prints the shortest
  digits that read back as the same double.
\<close>

definition part_key :: "(string \<Rightarrow> string) \<Rightarrow> string \<Rightarrow> string" where
  "part_key K part = (if \<not> isNaN part then K part else part)"

text \<open>
  \<open>number_key\<close> is \<^verbatim>\<open>String(Number(s))\<close> where it is plain: on white space alone (the
  number 0) and on at most fifteen decimal digits after leading zeros, with white
  space around them (an integer below \<open>2^53\<close>, exact as a double and printed in full).
  It stands for \<open>K\<close> on such segments; other strings are left as they are and are not
  meant to be given to it.
\<close>

definition number_key :: "string \<Rightarrow> string" where
  "number_key s =
     (let t = trim s; d = dropWhile (\<lambda>c. c = CHR ''0'') t
      in if t = [] then ''0''
         else if list_all isDigit t \<and> length d \<le> 15 then (if d = [] then ''0'' else d)
         else s)"

subsection \<open>Reading and writing a property\<close>

text \<open>The value of a canonical decimal numeral (\<^verbatim>\<open>"0"\<close>, \<^verbatim>\<open>"7"\<close>, \<^verbatim>\<open>"12"\<close>; not \<^verbatim>\<open>"01"\<close>).\<close>

definition digit_val :: "char \<Rightarrow> nat" where
  "digit_val c = of_char c - of_char CHR ''0''"

definition canonical_index :: "string \<Rightarrow> nat option" where
  "canonical_index k =
     (if digits isDigit k \<and> (k = ''0'' \<or> hd k \<noteq> CHR ''0'')
      then Some (foldl (\<lambda>n c. 10 * n + digit_val c) 0 k) else None)"

text \<open>An array index is a canonical numeral below \<open>2^32 - 1\<close>.\<close>

definition array_index :: "string \<Rightarrow> nat option" where
  "array_index k =
     (case canonical_index k of
        None \<Rightarrow> None
      | Some i \<Rightarrow> if int i < 4294967295 then Some i else None)"

definition own :: "props \<Rightarrow> string \<Rightarrow> val" where
  "own ps k = (case map_of ps k of None \<Rightarrow> Undefined | Some v \<Rightarrow> v)"

text \<open>
  \<^verbatim>\<open>obj[k]\<close>. Reading from \<^verbatim>\<open>undefined\<close> or \<^verbatim>\<open>null\<close> raises; a boolean or a number has no
  property of its own; a string has its \<^verbatim>\<open>length\<close> and its characters.
\<close>

fun get_prop :: "heap \<Rightarrow> val \<Rightarrow> string \<Rightarrow> error + val" where
  "get_prop h Undefined k = Inl TypeError"
| "get_prop h Null k = Inl TypeError"
| "get_prop h (Bool b) k = Inr Undefined"
| "get_prop h (Num n) k = Inr Undefined"
| "get_prop h (Str s) k =
     Inr (if k = ''length'' then Num (int (length s))
          else (case canonical_index k of
                  None \<Rightarrow> Undefined
                | Some i \<Rightarrow> if i < length s then Str [s ! i] else Undefined))"
| "get_prop h (Ref a) k =
     (if a < length h
      then (case h ! a of
              Object ps \<Rightarrow> Inr (own ps k)
            | Array ps n \<Rightarrow> Inr (if k = ''length'' then Num (int n) else own ps k))
      else Inl Unmodelled)"

text \<open>
  \<^verbatim>\<open>obj[k] = v\<close> in strict code. Writing an index of an array at or past its length
  extends the length.
\<close>

fun put_prop :: "heap \<Rightarrow> val \<Rightarrow> string \<Rightarrow> val \<Rightarrow> error + heap" where
  "put_prop h (Ref a) k v =
     (if a < length h
      then (case h ! a of
              Object ps \<Rightarrow> Inr (h[a := Object (AList.update k v ps)])
            | Array ps n \<Rightarrow>
                if k = ''length'' then Inl Unmodelled
                else Inr (h[a := Array (AList.update k v ps)
                                  (case array_index k of None \<Rightarrow> n | Some i \<Rightarrow> max n (Suc i))]))
      else Inl Unmodelled)"
| "put_prop h _ k v = Inl TypeError"

definition typeof :: "val \<Rightarrow> string" where
  "typeof v =
     (case v of
        Undefined \<Rightarrow> ''undefined''
      | Null \<Rightarrow> ''object''
      | Bool b \<Rightarrow> ''boolean''
      | Num n \<Rightarrow> ''number''
      | Str s \<Rightarrow> ''string''
      | Ref a \<Rightarrow> ''object'')"

section \<open>The traps\<close>

text \<open>
  The message of the error both traps throw at segment \<open>i\<close>:
  \<^verbatim>\<open>`invalid target "${part}"\n${prop}\n^`\<close> when \<open>i = 0\<close>, and otherwise
  \<^verbatim>\<open>`invalid target "${part}" in "${parts.slice(0, i).join('.')}"\n${prop}\n${" ".repeat(parts.slice(0, i).join('.').length)}^`\<close>.
\<close>

definition invalid_target :: "string \<Rightarrow> nat \<Rightarrow> string list \<Rightarrow> string \<Rightarrow> string" where
  "invalid_target part i parts prop =
     (if i = 0
      then ''invalid target '' @ [CHR 0x22] @ part @ [CHR 0x22, CHR 0x0A] @ prop @ [CHR 0x0A] @ ''^''
      else ''invalid target '' @ [CHR 0x22] @ part @ [CHR 0x22] @ '' in '' @ [CHR 0x22] @
           join_dot (take i parts) @ [CHR 0x22, CHR 0x0A] @ prop @ [CHR 0x0A] @
           replicate (length (join_dot (take i parts))) CHR '' '' @ ''^'')"

subsection \<open>\<^verbatim>\<open>get\<close>\<close>

function get_loop :: "bool \<Rightarrow> string \<Rightarrow> string list \<Rightarrow> heap \<Rightarrow> val \<Rightarrow> nat \<Rightarrow> error + val" where
  "get_loop throwErrs prop parts h obj i =
     (if i < length parts
      then (let part = parts ! i
            in case get_prop h obj part of
                 Inl e \<Rightarrow> Inl e
               | Inr obj' \<Rightarrow>
                   if obj' = Undefined
                   then (if throwErrs then Inl (InvalidPath (invalid_target part i parts prop))
                         else Inr Undefined)
                   else get_loop throwErrs prop parts h obj' (i + 1))
      else Inr obj)"
  by pat_completeness auto
termination
  by (relation "measure (\<lambda>(t, prop, parts, h, obj, i). length parts - i)") auto

declare get_loop.simps [simp del]

definition get_trap :: "options \<Rightarrow> heap \<Rightarrow> addr \<Rightarrow> string \<Rightarrow> error + val" where
  "get_trap opts h target prop = get_loop (throwErrors opts) prop (split_dot prop) h (Ref target) 0"

subsection \<open>\<^verbatim>\<open>set\<close>\<close>

text \<open>
  How a call of the \<^verbatim>\<open>set\<close> trap ends: it throws, it leaves through one of its
  \<^verbatim>\<open>return\<close> / \<^verbatim>\<open>return undefined\<close> statements, or it reaches
  \<^verbatim>\<open>return obj[parts[parts.length-1]] = value\<close>, whose value is \<^verbatim>\<open>value\<close>.
  \<open>returned\<close> is what the caller of the trap observes.
\<close>

datatype completion = Throw error | ReturnUndefined | ReturnAssigned val

fun returned :: "completion \<Rightarrow> error + val" where
  "returned (Throw e) = Inl e"
| "returned ReturnUndefined = Inr Undefined"
| "returned (ReturnAssigned v) = Inr v"

text \<open>
  Lines 65 to 73, \<^verbatim>\<open>obj[part] = []\<close> or \<^verbatim>\<open>obj[part] = {}\<close>: the literal is allocated at the
  end of the heap and its reference is stored. When the store raises, the heap is
  returned as it was (the literal is unreachable).
\<close>

definition vivify :: "heap \<Rightarrow> val \<Rightarrow> string \<Rightarrow> string \<Rightarrow> error + heap" where
  "vivify h obj part nextPart =
     (case get_prop h obj part of
        Inl e \<Rightarrow> Inl e
      | Inr cur \<Rightarrow>
          if \<not> isNaN nextPart
          then (if cur = Undefined \<or> typeof cur \<noteq> ''object''
                then put_prop (h @ [Array [] 0]) obj part (Ref (length h))
                else Inr h)
          else (if cur = Undefined \<or> typeof cur \<noteq> ''object''
                then put_prop (h @ [Object []]) obj part (Ref (length h))
                else Inr h))"

text \<open>Lines 88 to 100, after the loop.\<close>

definition set_last ::
  "options \<Rightarrow> string \<Rightarrow> string list \<Rightarrow> val \<Rightarrow> heap \<Rightarrow> val \<Rightarrow> completion \<times> heap" where
  "set_last opts prop parts v h obj =
     (let lastPart = parts ! (length parts - 1)
      in case get_prop h obj lastPart of
           Inl e \<Rightarrow> (Throw e, h)
         | Inr cur \<Rightarrow>
             if cur = Undefined \<and> \<not> isExpandable opts
             then (if throwErrors opts
                   then (Throw (InvalidPath (invalid_target lastPart (length parts - 1) parts prop)), h)
                   else (ReturnUndefined, h))
             else (case put_prop h obj lastPart v of
                     Inl e \<Rightarrow> (Throw e, h)
                   | Inr h' \<Rightarrow> (ReturnAssigned v, h')))"

text \<open>
  The loop of lines 58 to 87. \<^verbatim>\<open>nextPart\<close> is \<^verbatim>\<open>parts[i+1]\<close> with \<open>i + 1 < length parts\<close>,
  so \<^verbatim>\<open>nextPart !== undefined\<close> holds in every iteration.
\<close>

function set_loop ::
  "(string \<Rightarrow> string) \<Rightarrow> options \<Rightarrow> string \<Rightarrow> string list \<Rightarrow> val \<Rightarrow> heap \<Rightarrow> val \<Rightarrow> nat
     \<Rightarrow> completion \<times> heap" where
  "set_loop K opts prop parts v h obj i =
     (if i < length parts - 1
      then (let part = part_key K (parts ! i); nextPart = parts ! (i + 1)
            in case (if isExpandable opts then vivify h obj part nextPart else Inr h) of
                 Inl e \<Rightarrow> (Throw e, h)
               | Inr h1 \<Rightarrow>
                   (case get_prop h1 obj part of
                      Inl e \<Rightarrow> (Throw e, h1)
                    | Inr cur \<Rightarrow>
                        if cur = Undefined
                        then (if throwErrors opts
                              then (Throw (InvalidPath (invalid_target part i parts prop)), h1)
                              else (ReturnUndefined, h1))
                        else set_loop K opts prop parts v h1 cur (i + 1)))
      else set_last opts prop parts v h obj)"
  by pat_completeness auto
termination
  by (relation "measure (\<lambda>(K, opts, prop, parts, v, h, obj, i). length parts - i)") auto

declare set_loop.simps [simp del]

definition set_trap ::
  "(string \<Rightarrow> string) \<Rightarrow> options \<Rightarrow> heap \<Rightarrow> addr \<Rightarrow> string \<Rightarrow> val \<Rightarrow> completion \<times> heap" where
  "set_trap K opts h target prop v =
     (if isImmutable opts then (ReturnUndefined, h)
      else set_loop K opts prop (split_dot prop) v h (Ref target) 0)"

section \<open>Vocabulary of the statements\<close>


text \<open>
  \<open>descend h obj [k1, ..., kn]\<close> is the chained access \<^verbatim>\<open>obj[k1]...[kn]\<close> in the heap
  \<open>h\<close>: it raises where the language does, on reading a property of \<^verbatim>\<open>undefined\<close>
  or \<^verbatim>\<open>null\<close>. A path "resolves" when this access returns a value.
\<close>

fun descend :: "heap \<Rightarrow> val \<Rightarrow> string list \<Rightarrow> error + val" where
  "descend h obj [] = Inr obj"
| "descend h obj (k # ks) = (case get_prop h obj k of Inl e \<Rightarrow> Inl e | Inr obj' \<Rightarrow> descend h obj' ks)"

text \<open>
  A write failed when it threw the traps' own error or left through \<^verbatim>\<open>return\<close> /
  \<^verbatim>\<open>return undefined\<close>.
\<close>

definition failed :: "completion \<Rightarrow> bool" where
  "failed r = (case r of
      Throw e \<Rightarrow> (case e of InvalidPath m \<Rightarrow> True | TypeError \<Rightarrow> False | Unmodelled \<Rightarrow> False)
    | ReturnUndefined \<Rightarrow> True
    | ReturnAssigned x \<Rightarrow> False)"

section \<open>Lemmas\<close>

subsection \<open>One iteration of each loop\<close>

lemma split_dot_nonempty: "split_dot p \<noteq> []"
  by (induction p) (auto split: list.splits)

lemma get_loop_step:
  "i < length parts \<Longrightarrow>
   get_loop te prop parts h obj i =
     (case get_prop h obj (parts ! i) of
        Inl e \<Rightarrow> Inl e
      | Inr obj' \<Rightarrow>
          if obj' = Undefined
          then (if te then Inl (InvalidPath (invalid_target (parts ! i) i parts prop)) else Inr Undefined)
          else get_loop te prop parts h obj' (Suc i))"
  by (subst get_loop.simps) (simp add: Let_def cong: sum.case_cong if_cong)

lemma get_loop_end: "length parts \<le> i \<Longrightarrow> get_loop te prop parts h obj i = Inr obj"
  by (subst get_loop.simps) simp

lemma set_loop_step:
  "i < length parts - 1 \<Longrightarrow>
   set_loop K opts prop parts v h obj i =
     (case (if isExpandable opts then vivify h obj (part_key K (parts ! i)) (parts ! (i + 1)) else Inr h) of
        Inl e \<Rightarrow> (Throw e, h)
      | Inr h1 \<Rightarrow>
          (case get_prop h1 obj (part_key K (parts ! i)) of
             Inl e \<Rightarrow> (Throw e, h1)
           | Inr cur \<Rightarrow>
               if cur = Undefined
               then (if throwErrors opts
                     then (Throw (InvalidPath (invalid_target (part_key K (parts ! i)) i parts prop)), h1)
                     else (ReturnUndefined, h1))
               else set_loop K opts prop parts v h1 cur (Suc i)))"
  by (subst set_loop.simps) (simp add: Let_def cong: sum.case_cong if_cong)

lemma set_loop_end:
  "length parts - 1 \<le> i \<Longrightarrow> set_loop K opts prop parts v h obj i = set_last opts prop parts v h obj"
  by (subst set_loop.simps) simp






subsection \<open>Reading and writing properties\<close>

lemma get_prop_not_InvalidPath: "get_prop h obj k \<noteq> Inl (InvalidPath m)"
  by (cases obj) (auto split: obj.splits)

lemma put_prop_not_InvalidPath: "put_prop h obj k v \<noteq> Inl (InvalidPath m)"
  by (cases obj) (auto split: obj.splits)

lemma get_prop_Inr_defined: "get_prop h c k = Inr x \<Longrightarrow> c \<noteq> Undefined \<and> c \<noteq> Null"
  by (cases c) auto

lemma put_prop_Inr_Ref: "put_prop h obj k v = Inr h' \<Longrightarrow> \<exists>a. obj = Ref a \<and> a < length h"
  by (cases obj) (auto split: if_splits)

lemma own_update_same: "own (AList.update k v ps) k = v"
  by (simp add: own_def update_conv')

lemma get_put_same: "put_prop h (Ref a) k v = Inr h' \<Longrightarrow> get_prop h' (Ref a) k = Inr v"
  by (auto split: if_splits obj.splits simp: own_update_same)










lemma vivify_not_InvalidPath: "vivify h obj part nxt \<noteq> Inl (InvalidPath m)"
  unfolding vivify_def
  by (auto split: sum.splits simp: get_prop_not_InvalidPath put_prop_not_InvalidPath)

lemma vivify_defined:
  assumes "vivify h obj part nxt = Inr h1"
  shows "get_prop h1 obj part \<noteq> Inr Undefined"
proof (cases "get_prop h obj part")
  case (Inl e)
  with assms show ?thesis by (simp add: vivify_def)
next
  case (Inr cur)
  show ?thesis
  proof (cases "cur = Undefined \<or> typeof cur \<noteq> ''object''")
    case True
    with assms Inr obtain c where p: "put_prop (h @ [c]) obj part (Ref (length h)) = Inr h1"
      by (auto simp: vivify_def split: if_splits)
    then obtain a where a: "obj = Ref a" by (auto dest: put_prop_Inr_Ref)
    from p [unfolded a] have "get_prop h1 (Ref a) part = Inr (Ref (length h))"
      by (rule get_put_same)
    with a show ?thesis by simp
  next
    case False
    with assms Inr show ?thesis by (auto simp: vivify_def split: if_splits)
  qed
qed

subsection \<open>Walking along segments that resolve\<close>

lemma descend_defined: "descend h obj ks = Inr c \<Longrightarrow> c \<noteq> Undefined \<Longrightarrow> obj \<noteq> Undefined"
  by (cases ks) (auto split: sum.splits dest: get_prop_Inr_defined)


lemma get_descend:
  "descend h obj (take n (drop i parts)) = Inr c \<Longrightarrow> i + n \<le> length parts \<Longrightarrow> c \<noteq> Undefined \<Longrightarrow>
   get_loop te prop parts h obj i = get_loop te prop parts h c (i + n)"
proof (induction n arbitrary: obj i)
  case 0
  then show ?case by simp
next
  case (Suc n)
  from Suc.prems(2) have i: "i < length parts" by simp
  then have d: "drop i parts = parts ! i # drop (Suc i) parts"
    by (simp add: Cons_nth_drop_Suc)
  from Suc.prems(1) d obtain x where
    x: "get_prop h obj (parts ! i) = Inr x" and r: "descend h x (take n (drop (Suc i) parts)) = Inr c"
    by (auto split: sum.splits)
  from r Suc.prems(3) have "x \<noteq> Undefined" by (rule descend_defined)
  with x i have "get_loop te prop parts h obj i = get_loop te prop parts h x (Suc i)"
    by (simp add: get_loop_step)
  also have "\<dots> = get_loop te prop parts h c (Suc i + n)"
    using r Suc.prems(2,3) by (intro Suc.IH) auto
  finally show ?case by simp
qed

lemma get_loop_failure:
  "get_loop te prop parts h obj i = r \<Longrightarrow> r = Inr Undefined \<or> (\<exists>m. r = Inl (InvalidPath m)) \<Longrightarrow>
   obj \<noteq> Undefined \<Longrightarrow>
   \<exists>j c. i \<le> j \<and> j < length parts \<and> descend h obj (take (j - i) (drop i parts)) = Inr c \<and>
         get_prop h c (parts ! j) = Inr Undefined"
proof (induction "length parts - i" arbitrary: i obj)
  case 0
  then show ?case by (auto simp: get_loop_end)
next
  case (Suc n)
  then have i: "i < length parts" by simp
  then have d: "drop i parts = parts ! i # drop (Suc i) parts"
    by (simp add: Cons_nth_drop_Suc)
  show ?case
  proof (cases "get_prop h obj (parts ! i)")
    case (Inl e)
    with Suc.prems i show ?thesis
      by (auto simp: get_loop_step get_prop_not_InvalidPath)
  next
    case (Inr x)
    show ?thesis
    proof (cases "x = Undefined")
      case True
      with Inr i have "i \<le> i \<and> i < length parts \<and>
          descend h obj (take (i - i) (drop i parts)) = Inr obj \<and>
          get_prop h obj (parts ! i) = Inr Undefined" by simp
      then show ?thesis by blast
    next
      case False
      with Suc.prems(1) Inr i have r: "get_loop te prop parts h x (Suc i) = r"
        by (simp add: get_loop_step)
      from Suc.hyps(2) have "n = length parts - Suc i" by simp
      from Suc.hyps(1) [OF this r Suc.prems(2) False] obtain j c where
        j: "Suc i \<le> j" "j < length parts" and
        dc: "descend h x (take (j - Suc i) (drop (Suc i) parts)) = Inr c" and
        u: "get_prop h c (parts ! j) = Inr Undefined" by blast
      from j have "j - i = Suc (j - Suc i)" by simp
      with d Inr dc have "descend h obj (take (j - i) (drop i parts)) = Inr c" by simp
      with j u show ?thesis by (intro exI [of _ j] exI [of _ c]) simp
    qed
  qed
qed



subsection \<open>Writes that fail\<close>

lemma set_last_expandable:
  "isExpandable opts \<Longrightarrow> set_last opts prop parts v h obj = (r, h') \<Longrightarrow>
   r \<noteq> ReturnUndefined \<and> r \<noteq> Throw (InvalidPath m)"
  by (auto simp: set_last_def Let_def get_prop_not_InvalidPath put_prop_not_InvalidPath
           split: sum.splits)

lemma set_loop_expandable:
  "isExpandable opts \<Longrightarrow> set_loop K opts prop parts v h obj i = (r, h') \<Longrightarrow>
   r \<noteq> ReturnUndefined \<and> r \<noteq> Throw (InvalidPath m)"
proof (induction "length parts - 1 - i" arbitrary: i h obj)
  case 0
  then show ?case by (simp add: set_loop_end set_last_expandable)
next
  case (Suc n)
  then have i: "i < length parts - 1" by simp
  show ?case
  proof (cases "vivify h obj (part_key K (parts ! i)) (parts ! (i + 1))")
    case (Inl e)
    with Suc.prems i show ?thesis
      by (auto simp: set_loop_step vivify_not_InvalidPath)
  next
    case (Inr h1)
    note viv = this
    show ?thesis
    proof (cases "get_prop h1 obj (part_key K (parts ! i))")
      case (Inl e)
      with Suc.prems i viv show ?thesis
        by (auto simp: set_loop_step get_prop_not_InvalidPath)
    next
      case (Inr cur)
      with vivify_defined [OF viv] have cur: "cur \<noteq> Undefined" by auto
      with Suc.prems i viv Inr have "set_loop K opts prop parts v h1 cur (Suc i) = (r, h')"
        by (simp add: set_loop_step)
      moreover from Suc.hyps(2) have "n = length parts - 1 - Suc i" by simp
      ultimately show ?thesis using Suc.hyps(1) Suc.prems(1) by blast
    qed
  qed
qed

lemma set_last_failure_heap:
  "set_last opts prop parts v h obj = (r, h') \<Longrightarrow> \<forall>x. r \<noteq> ReturnAssigned x \<Longrightarrow> h' = h"
  by (auto simp: set_last_def Let_def split: sum.splits if_splits)

lemma set_loop_not_expandable_heap:
  "\<not> isExpandable opts \<Longrightarrow> set_loop K opts prop parts v h obj i = (r, h') \<Longrightarrow>
   \<forall>x. r \<noteq> ReturnAssigned x \<Longrightarrow> h' = h"
proof (induction "length parts - 1 - i" arbitrary: i obj)
  case 0
  then show ?case by (auto simp: set_loop_end dest: set_last_failure_heap)
next
  case (Suc n)
  then have i: "i < length parts - 1" by simp
  show ?case
  proof (cases "get_prop h obj (part_key K (parts ! i))")
    case (Inl e)
    with Suc.prems i show ?thesis by (simp add: set_loop_step)
  next
    case (Inr cur)
    show ?thesis
    proof (cases "cur = Undefined")
      case True
      with Suc.prems i Inr show ?thesis by (auto simp: set_loop_step split: if_splits)
    next
      case False
      with Suc.prems i Inr have "set_loop K opts prop parts v h cur (Suc i) = (r, h')"
        by (simp add: set_loop_step)
      moreover from Suc.hyps(2) have "n = length parts - 1 - Suc i" by simp
      ultimately show ?thesis using Suc.hyps(1) Suc.prems(1,3) by blast
    qed
  qed
qed

subsection \<open>Writes that create containers\<close>


section \<open>The claims\<close>

text \<open>
  C1. On the empty mapping with the default options, \<^verbatim>\<open>set("d.0.a", "test")\<close> returns
  \<^verbatim>\<open>"test"\<close> and leaves \<^verbatim>\<open>T.d\<close> a sequence of length 1 whose element at index 0 is the
  mapping \<^verbatim>\<open>{a: "test"}\<close>; a following \<^verbatim>\<open>get("d.0.a")\<close> returns \<^verbatim>\<open>"test"\<close>.
\<close>

theorem set_then_get_numeric_segment:
  "set_trap number_key default_options [Object []] 0 ''d.0.a'' (Str ''test'') =
     (ReturnAssigned (Str ''test''),
      [Object [(''d'', Ref 1)], Array [(''0'', Ref 2)] 1, Object [(''a'', Str ''test'')]]) \<and>
   get_trap default_options
     [Object [(''d'', Ref 1)], Array [(''0'', Ref 2)] 1, Object [(''a'', Str ''test'')]] 0 ''d.0.a'' =
     Inr (Str ''test'')"
  by code_simp







text \<open>
  C4. With \<^verbatim>\<open>throwErrors\<close> false no read or write should raise. On \<^verbatim>\<open>T = {a: null}\<close>
  both \<^verbatim>\<open>get("a.b")\<close> and \<^verbatim>\<open>set("a.b", 1)\<close> raise \<^verbatim>\<open>TypeError\<close>: \<^verbatim>\<open>null\<close> is not
  \<^verbatim>\<open>undefined\<close>, and its \<^verbatim>\<open>typeof\<close> is \<^verbatim>\<open>"object"\<close>, so both traps go on and read a property
  of \<^verbatim>\<open>null\<close>.
\<close>

theorem get_through_null_raises:
  "get_trap \<lparr>isImmutable = False, isExpandable = True, throwErrors = False\<rparr>
     [Object [(''a'', Null)]] 0 ''a.b'' = Inl TypeError \<and>
   set_trap number_key \<lparr>isImmutable = False, isExpandable = True, throwErrors = False\<rparr>
     [Object [(''a'', Null)]] 0 ''a.b'' (Num 1) = (Throw TypeError, [Object [(''a'', Null)]])"
  by code_simp

text \<open>
  C5. When \<^verbatim>\<open>isImmutable\<close> is true, \<^verbatim>\<open>set(p, v)\<close> leaves the heap as it was and returns
  \<^verbatim>\<open>undefined\<close>, for every target, path and value.
\<close>

theorem set_immutable:
  assumes "isImmutable opts"
  shows "set_trap K opts h target prop v = (ReturnUndefined, h) \<and>
         returned (fst (set_trap K opts h target prop v)) = Inr Undefined"
  using assms by (simp add: set_trap_def)

text \<open>The theorem at \<^verbatim>\<open>set("c.cA", true)\<close> on \<^verbatim>\<open>{a: 1, b: 2}\<close>.\<close>

theorem set_immutable_witness:
  "isImmutable \<lparr>isImmutable = True, isExpandable = True, throwErrors = True\<rparr> \<and>
   set_trap number_key \<lparr>isImmutable = True, isExpandable = True, throwErrors = True\<rparr>
     [Object [(''a'', Num 1), (''b'', Num 2)]] 0 ''c.cA'' (Bool True) =
     (ReturnUndefined, [Object [(''a'', Num 1), (''b'', Num 2)]])"
  using set_immutable [of "\<lparr>isImmutable = True, isExpandable = True, throwErrors = True\<rparr>"
      number_key "[Object [(''a'', Num 1), (''b'', Num 2)]]" 0 "''c.cA''" "Bool True"]
  by simp





text \<open>
  C8. A write that fails (it throws the traps' error or returns \<^verbatim>\<open>undefined\<close> without
  assigning) leaves the whole heap as it was. So nothing but containers created
  before the failure is changed, there being none: such a failure needs
  \<^verbatim>\<open>isImmutable\<close> true or \<^verbatim>\<open>isExpandable\<close> false, and then no container is created;
  and nothing is rolled back.
\<close>

theorem set_failure_leaves_target:
  assumes "failed (fst (set_trap K opts h target prop v))"
  shows "snd (set_trap K opts h target prop v) = h"
proof (cases "isImmutable opts")
  case True
  then show ?thesis by (simp add: set_trap_def)
next
  case False
  obtain r h' where s: "set_loop K opts prop (split_dot prop) v h (Ref target) 0 = (r, h')"
    by (cases "set_loop K opts prop (split_dot prop) v h (Ref target) 0")
  with False assms have f: "failed r" by (simp add: set_trap_def)
  have "h' = h"
  proof (cases "isExpandable opts")
    case True
    from f obtain m where "r = ReturnUndefined \<or> r = Throw (InvalidPath m)"
      by (auto simp: failed_def split: completion.splits error.splits)
    with set_loop_expandable [OF True s, of m] show ?thesis by blast
  next
    case False
    from f have "\<forall>x. r \<noteq> ReturnAssigned x" by (auto simp: failed_def)
    with set_loop_not_expandable_heap [OF False s] show ?thesis by blast
  qed
  with s \<open>\<not> isImmutable opts\<close> show ?thesis by (simp add: set_trap_def)
qed

text \<open>The theorem at \<^verbatim>\<open>set("a.b.c", 1)\<close> on \<^verbatim>\<open>{a: {}}\<close> with \<^verbatim>\<open>isExpandable\<close> false.\<close>

theorem set_failure_leaves_target_witness:
  "failed (fst (set_trap number_key \<lparr>isImmutable = False, isExpandable = False, throwErrors = True\<rparr>
      [Object [(''a'', Ref 1)], Object []] 0 ''a.b.c'' (Num 1))) \<and>
   snd (set_trap number_key \<lparr>isImmutable = False, isExpandable = False, throwErrors = True\<rparr>
      [Object [(''a'', Ref 1)], Object []] 0 ''a.b.c'' (Num 1)) = [Object [(''a'', Ref 1)], Object []]"
proof -
  have 1: "failed (fst (set_trap number_key \<lparr>isImmutable = False, isExpandable = False, throwErrors = True\<rparr>
      [Object [(''a'', Ref 1)], Object []] 0 ''a.b.c'' (Num 1)))"
    by code_simp
  from set_failure_leaves_target [OF 1] 1 show ?thesis by blast
qed




text \<open>
  C10. When the segments before the last resolve to \<open>c\<close> and \<open>c\<close> holds \<open>x\<close> under the
  last segment, \<^verbatim>\<open>get\<close> fails (throws its error, or returns \<^verbatim>\<open>undefined\<close> when
  \<^verbatim>\<open>throwErrors\<close> is false) exactly when \<open>x\<close> is \<^verbatim>\<open>undefined\<close>; any other \<open>x\<close>, also
  \<^verbatim>\<open>null\<close>, 0, \<^verbatim>\<open>false\<close> or the empty string, is returned. And whenever \<^verbatim>\<open>get\<close> fails
  in this way, at whatever position, the segments before some segment \<open>i\<close> resolve and
  the value found under segment \<open>i\<close> is \<^verbatim>\<open>undefined\<close>.
\<close>

theorem get_fails_exactly_on_undefined:
  "(descend h (Ref target) (butlast (split_dot prop)) = Inr c \<and>
    get_prop h c (last (split_dot prop)) = Inr x \<longrightarrow>
    get_trap opts h target prop =
      (if x = Undefined
       then (if throwErrors opts
             then Inl (InvalidPath (invalid_target (last (split_dot prop))
                         (length (split_dot prop) - 1) (split_dot prop) prop))
             else Inr Undefined)
       else Inr x)) \<and>
   (get_trap opts h target prop = Inr Undefined \<or>
    (\<exists>m. get_trap opts h target prop = Inl (InvalidPath m)) \<longrightarrow>
    (\<exists>i c'. i < length (split_dot prop) \<and>
        descend h (Ref target) (take i (split_dot prop)) = Inr c' \<and>
        get_prop h c' (split_dot prop ! i) = Inr Undefined))"
proof (intro conjI impI)
  let ?parts = "split_dot prop"
  let ?n = "length ?parts - 1"
  assume a: "descend h (Ref target) (butlast ?parts) = Inr c \<and> get_prop h c (last ?parts) = Inr x"
  have ne: "?parts \<noteq> []" by (rule split_dot_nonempty)
  then have n: "?n < length ?parts" by simp
  have l: "last ?parts = ?parts ! ?n" using ne by (simp add: last_conv_nth)
  from a have c: "c \<noteq> Undefined" by (auto dest: get_prop_Inr_defined)
  have "get_loop (throwErrors opts) prop ?parts h (Ref target) 0 =
        get_loop (throwErrors opts) prop ?parts h c (0 + ?n)"
    using a c by (intro get_descend) (auto simp: butlast_conv_take)
  also have "\<dots> = (if x = Undefined
      then (if throwErrors opts
            then Inl (InvalidPath (invalid_target (last ?parts) ?n ?parts prop))
            else Inr Undefined)
      else Inr x)"
    using n a ne by (simp add: get_loop_step l get_loop_end)
  finally show "get_trap opts h target prop =
      (if x = Undefined
       then (if throwErrors opts
             then Inl (InvalidPath (invalid_target (last ?parts) ?n ?parts prop))
             else Inr Undefined)
       else Inr x)"
    by (simp add: get_trap_def)
next
  let ?parts = "split_dot prop"
  assume f: "get_trap opts h target prop = Inr Undefined \<or>
    (\<exists>m. get_trap opts h target prop = Inl (InvalidPath m))"
  have "\<exists>j c'. 0 \<le> j \<and> j < length ?parts \<and>
          descend h (Ref target) (take (j - 0) (drop 0 ?parts)) = Inr c' \<and>
          get_prop h c' (?parts ! j) = Inr Undefined"
    using f by (intro get_loop_failure [of "throwErrors opts" "prop"]) (auto simp: get_trap_def)
  then show "\<exists>i c'. i < length ?parts \<and>
        descend h (Ref target) (take i ?parts) = Inr c' \<and>
        get_prop h c' (?parts ! i) = Inr Undefined"
    by simp
qed

text \<open>
  The theorem at \<^verbatim>\<open>a.n\<close>, \<^verbatim>\<open>a.z\<close>, \<^verbatim>\<open>a.f\<close>, \<^verbatim>\<open>a.e\<close> on
  \<^verbatim>\<open>{a: {n: null, z: 0, f: false, e: ""}}\<close>, and at \<^verbatim>\<open>z.x\<close> on \<^verbatim>\<open>{z: 0}\<close>, where the 0 is
  passed through and the failure comes from the \<^verbatim>\<open>undefined\<close> under \<^verbatim>\<open>x\<close>.
\<close>

theorem get_fails_exactly_on_undefined_witness:
  "(descend [Object [(''a'', Ref 1)], Object [(''n'', Null), (''z'', Num 0), (''f'', Bool False), (''e'', Str '''')]]
      (Ref 0) (butlast (split_dot ''a.n'')) = Inr (Ref 1) \<and>
    get_prop [Object [(''a'', Ref 1)], Object [(''n'', Null), (''z'', Num 0), (''f'', Bool False), (''e'', Str '''')]]
      (Ref 1) (last (split_dot ''a.n'')) = Inr Null \<and>
    get_trap default_options
      [Object [(''a'', Ref 1)], Object [(''n'', Null), (''z'', Num 0), (''f'', Bool False), (''e'', Str '''')]]
      0 ''a.n'' = Inr Null) \<and>
   get_trap default_options
      [Object [(''a'', Ref 1)], Object [(''n'', Null), (''z'', Num 0), (''f'', Bool False), (''e'', Str '''')]]
      0 ''a.z'' = Inr (Num 0) \<and>
   get_trap default_options
      [Object [(''a'', Ref 1)], Object [(''n'', Null), (''z'', Num 0), (''f'', Bool False), (''e'', Str '''')]]
      0 ''a.f'' = Inr (Bool False) \<and>
   get_trap default_options
      [Object [(''a'', Ref 1)], Object [(''n'', Null), (''z'', Num 0), (''f'', Bool False), (''e'', Str '''')]]
      0 ''a.e'' = Inr (Str '''') \<and>
   (\<exists>m. get_trap default_options [Object [(''z'', Num 0)]] 0 ''z.x'' = Inl (InvalidPath m)) \<and>
   (\<exists>i c'. i < length (split_dot ''z.x'') \<and>
      descend [Object [(''z'', Num 0)]] (Ref 0) (take i (split_dot ''z.x'')) = Inr c' \<and>
      get_prop [Object [(''z'', Num 0)]] c' (split_dot ''z.x'' ! i) = Inr Undefined)"
proof -
  let ?h = "[Object [(''a'', Ref 1)], Object [(''n'', Null), (''z'', Num 0), (''f'', Bool False), (''e'', Str '''')]]"
  have d: "descend ?h (Ref 0) (butlast (split_dot ''a.n'')) = Inr (Ref 1)"
    "descend ?h (Ref 0) (butlast (split_dot ''a.z'')) = Inr (Ref 1)"
    "descend ?h (Ref 0) (butlast (split_dot ''a.f'')) = Inr (Ref 1)"
    "descend ?h (Ref 0) (butlast (split_dot ''a.e'')) = Inr (Ref 1)"
    by code_simp+
  have g: "get_prop ?h (Ref 1) (last (split_dot ''a.n'')) = Inr Null"
    "get_prop ?h (Ref 1) (last (split_dot ''a.z'')) = Inr (Num 0)"
    "get_prop ?h (Ref 1) (last (split_dot ''a.f'')) = Inr (Bool False)"
    "get_prop ?h (Ref 1) (last (split_dot ''a.e'')) = Inr (Str '''')"
    by code_simp+
  have "get_trap default_options [Object [(''z'', Num 0)]] 0 ''z.x'' =
      Inl (InvalidPath (invalid_target ''x'' 1 [''z'', ''x''] ''z.x''))"
    by code_simp
  then have f: "\<exists>m. get_trap default_options [Object [(''z'', Num 0)]] 0 ''z.x'' = Inl (InvalidPath m)"
    by blast
  note t = get_fails_exactly_on_undefined
  from t [of ?h 0 "''a.n''" "Ref 1" Null default_options, THEN conjunct1]
    t [of ?h 0 "''a.z''" "Ref 1" "Num 0" default_options, THEN conjunct1]
    t [of ?h 0 "''a.f''" "Ref 1" "Bool False" default_options, THEN conjunct1]
    t [of ?h 0 "''a.e''" "Ref 1" "Str ''''" default_options, THEN conjunct1]
    d g
  have r: "get_trap default_options ?h 0 ''a.n'' = Inr Null"
    "get_trap default_options ?h 0 ''a.z'' = Inr (Num 0)"
    "get_trap default_options ?h 0 ''a.f'' = Inr (Bool False)"
    "get_trap default_options ?h 0 ''a.e'' = Inr (Str '''')"
    by simp_all
  from t [of "[Object [(''z'', Num 0)]]" 0 "''z.x''" _ _ default_options, THEN conjunct2] f
  have "\<exists>i c'. i < length (split_dot ''z.x'') \<and>
      descend [Object [(''z'', Num 0)]] (Ref 0) (take i (split_dot ''z.x'')) = Inr c' \<and>
      get_prop [Object [(''z'', Num 0)]] c' (split_dot ''z.x'' ! i) = Inr Undefined"
    by blast
  with r f d(1) g(1) show ?thesis by blast
qed

end
